theory Spec2Isabelle
  imports Main "HOL-Library.Word"
begin

unbundle bit_operations_syntax

section \<open>Machine model\<close>

text \<open>
  The collector of \<^verbatim>\<open>semi.h\<close> works on raw addresses: \<^verbatim>\<open>uintptr_t\<close> and
  \<^verbatim>\<open>size_t\<close> are 64-bit words whose arithmetic wraps, and the process memory is a
  byte-addressed store. A word is read and written little-endian, eight bytes at a time.
\<close>

type_synonym addr = "64 word"
type_synonym byte = "8 word"
type_synonym memory = "addr \<Rightarrow> byte"

definition byte_at :: "64 word \<Rightarrow> nat \<Rightarrow> byte" where
  "byte_at v i = ucast (drop_bit (8 * i) v)"

text \<open>\<^verbatim>\<open>*(uintptr_t* )a = v\<close>\<close>

definition store64 :: "addr \<Rightarrow> 64 word \<Rightarrow> memory \<Rightarrow> memory" where
  "store64 a v m = (\<lambda>x. if x - a < 8 then byte_at v (unat (x - a)) else m x)"

text \<open>\<^verbatim>\<open>*(uintptr_t* )a\<close>\<close>

definition load64 :: "memory \<Rightarrow> addr \<Rightarrow> 64 word" where
  "load64 m a =
     ucast (m a) OR push_bit 8 (ucast (m (a + 1))) OR push_bit 16 (ucast (m (a + 2)))
     OR push_bit 24 (ucast (m (a + 3))) OR push_bit 32 (ucast (m (a + 4)))
     OR push_bit 40 (ucast (m (a + 5))) OR push_bit 48 (ucast (m (a + 6)))
     OR push_bit 56 (ucast (m (a + 7)))"

text \<open>\<^verbatim>\<open>memcpy(dst, src, n)\<close>: the \<open>n\<close> bytes at \<open>dst\<close> become those at \<open>src\<close>.\<close>

definition memcpy :: "addr \<Rightarrow> addr \<Rightarrow> 64 word \<Rightarrow> memory \<Rightarrow> memory" where
  "memcpy dst src n m = (\<lambda>x. if x - dst < n then m (src + (x - dst)) else m x)"

text \<open>
  \<^verbatim>\<open>clear_memory(addr, size)\<close> is \<^verbatim>\<open>memset((char* )addr, 0, size)\<close>. A run of
  \<open>2^63\<close> bytes or more does not fit in the mapped memory of any process: the write
  leaves the mapping and the process is killed by the memory fault, which is the result
  \<open>None\<close>. A shorter run is taken to lie in mapped memory, like every other access the
  program makes through the fields of the semi-space.
\<close>

definition clear_memory :: "addr \<Rightarrow> 64 word \<Rightarrow> memory \<Rightarrow> memory option" where
  "clear_memory a n m =
     (if 2 ^ 63 \<le> unat n then None
      else Some (\<lambda>x. if x - a < n then 0 else m x))"

text \<open>
  \<^verbatim>\<open>madvise(addr, len, MADV_DONTNEED)\<close> on the private anonymous mapping: the
  range keeps its reservation and reads as zero afterwards.
\<close>

definition madvise_dontneed :: "addr \<Rightarrow> 64 word \<Rightarrow> memory \<Rightarrow> memory" where
  "madvise_dontneed a n m = (\<lambda>x. if x - a < n then 0 else m x)"

definition ALIGNMENT :: "64 word" where
  "ALIGNMENT = 8"

definition align_up :: "64 word \<Rightarrow> 64 word \<Rightarrow> 64 word" where
  "align_up a align = (a + align - 1) AND NOT (align - 1)"

definition LARGE_OBJECT_THRESHOLD :: "64 word" where
  "LARGE_OBJECT_THRESHOLD = 8192"

section \<open>Data model\<close>

text \<open>\<^verbatim>\<open>struct semi_space\<close>; the field \<^verbatim>\<open>size\<close> is \<open>size_sp\<close> here, and the
  \<^verbatim>\<open>long count\<close> is a 64-bit word read as two's complement.\<close>

record semi_space =
  hp :: addr
  limit :: addr
  base :: addr
  size_sp :: "64 word"
  count :: "64 word"

text \<open>
  Modelled from the spec: \<^verbatim>\<open>struct large_object_space\<close> of
  \<^verbatim>\<open>large-object-space.h\<close>, which is not part of the sources. The spec describes it
  as a registry of the live large allocations (start address and page count), a per-cycle
  liveness mark set, and the counter of pages live after the last collection.
\<close>

record large_object_space =
  objects :: "(addr \<times> 64 word) list"
  marked :: "addr list"
  live_pages_at_last_collection :: "64 word"

text \<open>
  What the sources take from outside: \<^verbatim>\<open>getpagesize()\<close>, the table of object kinds
  behind \<^verbatim>\<open>FOR_EACH_HEAP_OBJECT_KIND\<close> (which tags have a case, the per-kind
  \<^verbatim>\<open>name_size(obj)\<close>, and the slots that \<^verbatim>\<open>visit_name_fields\<close> hands to its
  callback, in order), and the page allocator of the large-object space.
\<close>

record externals =
  page_size :: "64 word"
  kind_known :: "64 word \<Rightarrow> bool"
  obj_size :: "64 word \<Rightarrow> memory \<Rightarrow> addr \<Rightarrow> 64 word"
  obj_fields :: "64 word \<Rightarrow> memory \<Rightarrow> addr \<Rightarrow> addr list"
  large_object_space_npages :: "large_object_space \<Rightarrow> 64 word \<Rightarrow> 64 word"
  large_object_space_alloc :: "large_object_space \<Rightarrow> 64 word \<Rightarrow> large_object_space \<times> addr"
  large_object_space_obtain_and_alloc ::
    "large_object_space \<Rightarrow> 64 word \<Rightarrow> large_object_space \<times> addr"

text \<open>
  \<^verbatim>\<open>struct mutator\<close> with its embedded \<^verbatim>\<open>struct heap\<close> flattened, together with
  the memory its pointers refer to. \<open>roots\<close> is the chain of handles, as the addresses
  \<^verbatim>\<open>&h->v\<close> of their slots in chain order.
\<close>

record mutator =
  semi :: semi_space
  los :: large_object_space
  roots :: "addr list"
  mem :: memory

text \<open>
  The ways a call ends without returning: \<^verbatim>\<open>abort()\<close> with no message (the
  \<^verbatim>\<open>default\<close> cases and the address in neither space), the heap-exhaustion
  diagnostic, the diagnostic of a failed page acquisition, and the memory fault of a
  \<^verbatim>\<open>memset\<close> that runs off mapped memory. \<open>Out_of_fuel\<close> stands for a loop or
  recursion that has not finished within the given number of rounds.
\<close>

datatype fatal = Aborted | Ran_out_of_space | Weird_mmap | Memory_fault

datatype 'a outcome = Returns 'a | Fatal fatal | Out_of_fuel

section \<open>The semi-space\<close>

text \<open>
  \<^verbatim>\<open>semi_space_steal_pages\<close>: the result, the updated space, and the two ranges
  (start, length) handed to \<^verbatim>\<open>madvise\<close>.
\<close>

definition half_size_of :: "externals \<Rightarrow> 64 word \<Rightarrow> 64 word" where
  "half_size_of E npages =
     drop_bit 1 ((if npages AND 1 \<noteq> 0 then npages + 1 else npages) * page_size E)"

definition semi_space_steal_pages ::
  "externals \<Rightarrow> semi_space \<Rightarrow> 64 word \<Rightarrow> bool \<times> semi_space \<times> (addr \<times> 64 word) list" where
  "semi_space_steal_pages E space npages =
     (let half_size = half_size_of E npages in
      if limit space - hp space < half_size then (False, space, [])
      else
        let space' = space\<lparr>limit := limit space - half_size\<rparr>;
            tospace_offset = limit space' - base space';
            fromspace_offset =
              (tospace_offset + drop_bit 1 (size_sp space')) AND (size_sp space' - 1)
        in (True, space',
            [(base space' + tospace_offset, half_size),
             (base space' + fromspace_offset, half_size)]))"

definition flip :: "semi_space \<Rightarrow> semi_space" where
  "flip space =
     (let split = base space + drop_bit 1 (size_sp space) in
      (if hp space \<le> split
       then space\<lparr>hp := split, limit := base space + size_sp space\<rparr>
       else space\<lparr>hp := base space, limit := split\<rparr>)
      \<lparr>count := count space + 1\<rparr>)"

definition semi_space_contains :: "semi_space \<Rightarrow> addr \<Rightarrow> bool" where
  "semi_space_contains space obj \<longleftrightarrow> obj - base space < size_sp space"

text \<open>
  \<^verbatim>\<open>initialize_semi_space\<close>; \<open>mapped\<close> is what \<^verbatim>\<open>mmap\<close> returned, \<open>None\<close> for
  \<^verbatim>\<open>MAP_FAILED\<close>.
\<close>

definition initialize_semi_space ::
  "addr option \<Rightarrow> semi_space \<Rightarrow> 64 word \<Rightarrow> bool \<times> semi_space" where
  "initialize_semi_space mapped space sz =
     (case mapped of
        None \<Rightarrow> (False, space)
      | Some m \<Rightarrow> (True, flip (space\<lparr>hp := m, base := m, size_sp := sz, count := - 1\<rparr>)))"

section \<open>The large-object space, as the collector uses it\<close>

text \<open>
  Modelled from the spec: \<^verbatim>\<open>large_object_space_start_gc\<close> (absent from the
  sources) tells the space that a cycle starts and resets the per-cycle liveness marks.
\<close>

definition large_object_space_start_gc :: "large_object_space \<Rightarrow> large_object_space" where
  "large_object_space_start_gc space = space\<lparr>marked := []\<rparr>"

text \<open>
  Modelled from the spec: \<^verbatim>\<open>large_object_space_copy\<close> (absent from the sources)
  marks the object live and returns whether this is the first mark of the cycle.
\<close>

definition large_object_space_copy ::
  "large_object_space \<Rightarrow> addr \<Rightarrow> bool \<times> large_object_space" where
  "large_object_space_copy space a =
     (if a \<in> set (marked space) then (False, space)
      else (True, space\<lparr>marked := a # marked space\<rparr>))"

text \<open>
  Modelled from the spec: \<^verbatim>\<open>large_object_space_contains\<close> (absent from the
  sources) decides by address-range containment whether an address lies in one of the
  registered large allocations.
\<close>

definition large_object_space_contains ::
  "externals \<Rightarrow> large_object_space \<Rightarrow> addr \<Rightarrow> bool" where
  "large_object_space_contains E space a =
     list_ex (\<lambda>(b, n). a - b < n * page_size E) (objects space)"

text \<open>
  Modelled from the spec: \<^verbatim>\<open>large_object_space_finish_gc\<close> (absent from the
  sources) finalizes the marks: the allocations marked in this cycle stay registered and
  their pages are the live-page count of the cycle.
\<close>

definition large_object_space_finish_gc :: "large_object_space \<Rightarrow> large_object_space" where
  "large_object_space_finish_gc space =
     (let live = filter (\<lambda>(b, n). b \<in> set (marked space)) (objects space)
      in space\<lparr>objects := live, live_pages_at_last_collection := sum_list (map snd live)\<rparr>)"

section \<open>Forwarding and scanning\<close>

text \<open>\<^verbatim>\<open>copy\<close>: the \<^verbatim>\<open>default\<close> case of the size dispatch aborts.\<close>

definition copy :: "externals \<Rightarrow> mutator \<Rightarrow> 64 word \<Rightarrow> addr \<Rightarrow> (mutator \<times> addr) outcome" where
  "copy E s kind obj =
     (if \<not> kind_known E kind then Fatal Aborted
      else
        let sz = obj_size E kind (mem s) obj;
            new_obj = hp (semi s);
            m1 = memcpy new_obj obj sz (mem s);
            m2 = store64 obj (hp (semi s)) m1
        in Returns
             (s\<lparr>semi := (semi s)\<lparr>hp := hp (semi s) + align_up sz ALIGNMENT\<rparr>, mem := m2\<rparr>,
              new_obj))"

definition forward :: "externals \<Rightarrow> mutator \<Rightarrow> addr \<Rightarrow> (mutator \<times> addr) outcome" where
  "forward E s obj =
     (let header_word = load64 (mem s) obj in
      if kind_known E header_word then copy E s header_word obj
      else Returns (s, header_word))"

definition visit_semi_space :: "externals \<Rightarrow> mutator \<Rightarrow> addr \<Rightarrow> addr \<Rightarrow> mutator outcome" where
  "visit_semi_space E s loc obj =
     (case forward E s obj of
        Returns (s', new) \<Rightarrow> Returns (s'\<lparr>mem := store64 loc new (mem s')\<rparr>)
      | Fatal f \<Rightarrow> Fatal f
      | Out_of_fuel \<Rightarrow> Out_of_fuel)"

text \<open>
  \<^verbatim>\<open>visit_large_object_space\<close> calls \<^verbatim>\<open>scan\<close> on the first mark of a large
  object; \<open>sc\<close> is that callee.
\<close>

definition visit_large_object_space ::
  "(mutator \<Rightarrow> addr \<Rightarrow> (mutator \<times> addr) outcome) \<Rightarrow> mutator \<Rightarrow> addr \<Rightarrow> addr \<Rightarrow> mutator outcome"
  where
  "visit_large_object_space sc s loc obj =
     (case large_object_space_copy (los s) obj of
        (True, space') \<Rightarrow>
          (case sc (s\<lparr>los := space'\<rparr>) obj of
             Returns (s', _) \<Rightarrow> Returns s'
           | Fatal f \<Rightarrow> Fatal f
           | Out_of_fuel \<Rightarrow> Out_of_fuel)
      | (False, space') \<Rightarrow> Returns (s\<lparr>los := space'\<rparr>))"

definition visit ::
  "externals \<Rightarrow> (mutator \<Rightarrow> addr \<Rightarrow> (mutator \<times> addr) outcome) \<Rightarrow> mutator \<Rightarrow> addr \<Rightarrow> mutator outcome"
  where
  "visit E sc s loc =
     (let obj = load64 (mem s) loc in
      if obj = 0 then Returns s
      else if semi_space_contains (semi s) obj then visit_semi_space E s loc obj
      else if large_object_space_contains E (los s) obj
        then visit_large_object_space sc s loc obj
      else Fatal Aborted)"

text \<open>
  A run of the callback over slots, one after the other: the body of a field visitor, and
  the loop over the chain of roots.
\<close>

fun visit_each ::
  "(mutator \<Rightarrow> addr \<Rightarrow> mutator outcome) \<Rightarrow> mutator \<Rightarrow> addr list \<Rightarrow> mutator outcome" where
  "visit_each v s [] = Returns s"
| "visit_each v s (loc # locs) =
     (case v s loc of
        Returns s' \<Rightarrow> visit_each v s' locs
      | Fatal f \<Rightarrow> Fatal f
      | Out_of_fuel \<Rightarrow> Out_of_fuel)"

text \<open>
  \<^verbatim>\<open>scan\<close>: the fields are visited, then the size of the object is read again for
  the new cursor. The recursion through the large objects is bounded by the fuel.
\<close>

primrec scan :: "nat \<Rightarrow> externals \<Rightarrow> mutator \<Rightarrow> addr \<Rightarrow> (mutator \<times> addr) outcome" where
  "scan 0 E s grey = Out_of_fuel"
| "scan (Suc n) E s grey =
     (let kind = load64 (mem s) grey in
      if \<not> kind_known E kind then Fatal Aborted
      else
        (case visit_each (visit E (scan n E)) s (obj_fields E kind (mem s) grey) of
           Returns s' \<Rightarrow>
             Returns (s', grey + align_up (obj_size E kind (mem s') grey) ALIGNMENT)
         | Fatal f \<Rightarrow> Fatal f
         | Out_of_fuel \<Rightarrow> Out_of_fuel))"

text \<open>The loop \<^verbatim>\<open>while (grey < semi->hp) grey = scan(heap, grey)\<close>.\<close>

primrec scan_loop :: "nat \<Rightarrow> nat \<Rightarrow> externals \<Rightarrow> mutator \<Rightarrow> addr \<Rightarrow> mutator outcome" where
  "scan_loop 0 d E s grey = (if grey < hp (semi s) then Out_of_fuel else Returns s)"
| "scan_loop (Suc n) d E s grey =
     (if grey < hp (semi s) then
        (case scan d E s grey of
           Returns (s', grey') \<Rightarrow> scan_loop n d E s' grey'
         | Fatal f \<Rightarrow> Fatal f
         | Out_of_fuel \<Rightarrow> Out_of_fuel)
      else Returns s)"

section \<open>Collection and allocation\<close>

text \<open>
  The budget transfer as the callers see it: the space is updated and the two ranges are
  released. The result tells whether the budget was available.
\<close>

definition steal_pages :: "externals \<Rightarrow> mutator \<Rightarrow> 64 word \<Rightarrow> bool \<times> mutator" where
  "steal_pages E s npages =
     (case semi_space_steal_pages E (semi s) npages of
        (ok, space', ranges) \<Rightarrow>
          (ok, s\<lparr>semi := space', mem := foldl (\<lambda>m (a, n). madvise_dontneed a n m) (mem s) ranges\<rparr>))"

text \<open>
  \<^verbatim>\<open>collect\<close>; \<open>n\<close> bounds the rounds of the scan loop and \<open>d\<close> the depth of the
  recursion through large objects.
\<close>

definition collect :: "nat \<Rightarrow> nat \<Rightarrow> externals \<Rightarrow> mutator \<Rightarrow> mutator outcome" where
  "collect n d E s =
     (let s1 = s\<lparr>los := large_object_space_start_gc (los s)\<rparr>;
          s2 = s1\<lparr>semi := flip (semi s1)\<rparr>;
          grey = hp (semi s2)
      in case visit_each (visit E (scan d E)) s2 (roots s2) of
           Returns s3 \<Rightarrow>
             (case scan_loop n d E s3 grey of
                Returns s4 \<Rightarrow>
                  (let s5 = s4\<lparr>los := large_object_space_finish_gc (los s4)\<rparr>
                   in Returns
                        (snd (steal_pages E s5 (live_pages_at_last_collection (los s5)))))
              | Fatal f \<Rightarrow> Fatal f
              | Out_of_fuel \<Rightarrow> Out_of_fuel)
         | Fatal f \<Rightarrow> Fatal f
         | Out_of_fuel \<Rightarrow> Out_of_fuel)"

definition collect_for_alloc ::
  "nat \<Rightarrow> nat \<Rightarrow> externals \<Rightarrow> mutator \<Rightarrow> 64 word \<Rightarrow> mutator outcome" where
  "collect_for_alloc n d E s bytes =
     (case collect n d E s of
        Returns s' \<Rightarrow>
          if limit (semi s') - hp (semi s') < bytes then Fatal Ran_out_of_space
          else Returns s'
      | Fatal f \<Rightarrow> Fatal f
      | Out_of_fuel \<Rightarrow> Out_of_fuel)"

text \<open>
  The tail of \<^verbatim>\<open>allocate_large\<close> once the budget is reserved: the fast path, the
  slow path when the fast one returned null, the abort when both did, the header store.
\<close>

definition large_alloc_after_steal ::
  "externals \<Rightarrow> mutator \<Rightarrow> 64 word \<Rightarrow> 64 word \<Rightarrow> (mutator \<times> addr) outcome" where
  "large_alloc_after_steal E s kind npages =
     (let (space1, ret1) = large_object_space_alloc E (los s) npages;
          (space2, ret) =
            (if ret1 = 0 then large_object_space_obtain_and_alloc E space1 npages
             else (space1, ret1))
      in if ret = 0 then Fatal Weird_mmap
         else Returns (s\<lparr>los := space2, mem := store64 ret kind (mem s)\<rparr>, ret))"

definition allocate_large ::
  "nat \<Rightarrow> nat \<Rightarrow> externals \<Rightarrow> mutator \<Rightarrow> 64 word \<Rightarrow> 64 word \<Rightarrow> (mutator \<times> addr) outcome"
  where
  "allocate_large n d E s kind sz =
     (let npages = large_object_space_npages E (los s) sz in
      case steal_pages E s npages of
        (True, s1) \<Rightarrow> large_alloc_after_steal E s1 kind npages
      | (False, s1) \<Rightarrow>
          (case collect n d E s1 of
             Returns s2 \<Rightarrow>
               (case steal_pages E s2 npages of
                  (True, s3) \<Rightarrow> large_alloc_after_steal E s3 kind npages
                | (False, s3) \<Rightarrow> Fatal Ran_out_of_space)
           | Fatal f \<Rightarrow> Fatal f
           | Out_of_fuel \<Rightarrow> Out_of_fuel))"

text \<open>
  The length handed to \<^verbatim>\<open>clear_memory\<close> by the small path:
  \<^verbatim>\<open>size - sizeof(uintptr_t)\<close> in \<^verbatim>\<open>size_t\<close> arithmetic.
\<close>

definition clear_length :: "64 word \<Rightarrow> 64 word" where
  "clear_length sz = sz - 8"

text \<open>
  The \<^verbatim>\<open>while (1)\<close> loop of \<^verbatim>\<open>allocate\<close>; \<open>r\<close> bounds its rounds. A block that
  fits has \<open>hp\<close> advanced and its header word stored before the rest is cleared; when
  the clearing faults the call does not return.
\<close>

primrec allocate_small ::
  "nat \<Rightarrow> nat \<Rightarrow> nat \<Rightarrow> externals \<Rightarrow> mutator \<Rightarrow> 64 word \<Rightarrow> 64 word \<Rightarrow> (mutator \<times> addr) outcome"
  where
  "allocate_small 0 n d E s kind sz = Out_of_fuel"
| "allocate_small (Suc r) n d E s kind sz =
     (let a = hp (semi s);
          new_hp = align_up (a + sz) ALIGNMENT
      in if limit (semi s) < new_hp then
           (case collect_for_alloc n d E s sz of
              Returns s' \<Rightarrow> allocate_small r n d E s' kind sz
            | Fatal f \<Rightarrow> Fatal f
            | Out_of_fuel \<Rightarrow> Out_of_fuel)
         else
           (case clear_memory (a + 8) (clear_length sz) (store64 a kind (mem s)) of
              None \<Rightarrow> Fatal Memory_fault
            | Some m' \<Rightarrow> Returns (s\<lparr>semi := (semi s)\<lparr>hp := new_hp\<rparr>, mem := m'\<rparr>, a)))"

definition allocate ::
  "nat \<Rightarrow> nat \<Rightarrow> nat \<Rightarrow> externals \<Rightarrow> mutator \<Rightarrow> 64 word \<Rightarrow> 64 word \<Rightarrow> (mutator \<times> addr) outcome"
  where
  "allocate r n d E s kind sz =
     (if sz \<ge> LARGE_OBJECT_THRESHOLD then allocate_large n d E s kind sz
      else allocate_small r n d E s kind sz)"

text \<open>
  \<^verbatim>\<open>initialize_gc\<close>: the mutator is zero-filled by \<^verbatim>\<open>calloc\<close>; \<open>mapped\<close> is the
  result of \<^verbatim>\<open>mmap\<close>, \<open>large\<close> the large-object space that
  \<^verbatim>\<open>large_object_space_init\<close> set up (\<open>None\<close> when it failed), \<open>m\<close> the memory.
  \<open>None\<close> is the return value 0.
\<close>

definition initialize_gc ::
  "addr option \<Rightarrow> large_object_space option \<Rightarrow> memory \<Rightarrow> 64 word \<Rightarrow> mutator option" where
  "initialize_gc mapped large m heap_size =
     (case initialize_semi_space mapped
             \<lparr>hp = 0, limit = 0, base = 0, size_sp = 0, count = 0\<rparr> heap_size of
        (False, _) \<Rightarrow> None
      | (True, space) \<Rightarrow>
          (case large of
             None \<Rightarrow> None
           | Some l \<Rightarrow> Some \<lparr>semi = space, los = l, roots = [], mem = m\<rparr>))"

section \<open>Notions used in the statements\<close>

text \<open>A page count rounded up to even, and the value a call returned, if it did.\<close>

definition round_up_even :: "nat \<Rightarrow> nat" where
  "round_up_even n = (if odd n then n + 1 else n)"

definition returned :: "'a outcome \<Rightarrow> 'a option" where
  "returned r = (case r of Returns x \<Rightarrow> Some x | Fatal f \<Rightarrow> None | Out_of_fuel \<Rightarrow> None)"

text \<open>
  What forwarding and scanning leave alone: every field of the semi-space but \<open>hp\<close>, the
  chain of roots, the registry of large objects and its page counter.
\<close>

definition same_frame :: "mutator \<Rightarrow> mutator \<Rightarrow> bool" where
  "same_frame s s' \<longleftrightarrow>
     base (semi s') = base (semi s) \<and> size_sp (semi s') = size_sp (semi s) \<and>
     limit (semi s') = limit (semi s) \<and> count (semi s') = count (semi s) \<and>
     roots s' = roots s \<and> objects (los s') = objects (los s) \<and>
     live_pages_at_last_collection (los s') = live_pages_at_last_collection (los s)"

section \<open>A small heap to run the definitions on\<close>

text \<open>
  One kind of object, tagged 1: sixteen bytes, a header and one reference field. Pages of
  4096 bytes; the fast path of the large-object allocator has nothing to reuse and the
  slow path maps at a fixed address. The semi-space is 32 KiB at 0x10000 with its upper
  half active and empty.
\<close>

definition ex_E :: externals where
  "ex_E =
     \<lparr>page_size = 4096,
      kind_known = (\<lambda>k. k = 1),
      obj_size = (\<lambda>k m a. 16),
      obj_fields = (\<lambda>k m a. [a + 8]),
      large_object_space_npages = (\<lambda>l sz. drop_bit 12 (sz + 4095)),
      large_object_space_alloc = (\<lambda>l n. (l, 0)),
      large_object_space_obtain_and_alloc =
        (\<lambda>l n. (l\<lparr>objects := (0x7F0000000000, n) # objects l\<rparr>, 0x7F0000000000))\<rparr>"

definition ex_space :: semi_space where
  "ex_space = \<lparr>hp = 0x14000, limit = 0x18000, base = 0x10000, size_sp = 0x8000, count = 0\<rparr>"

definition ex_los :: large_object_space where
  "ex_los = \<lparr>objects = [], marked = [], live_pages_at_last_collection = 0\<rparr>"

definition ex_mut :: mutator where
  "ex_mut = \<lparr>semi = ex_space, los = ex_los, roots = [], mem = (\<lambda>x. 0)\<rparr>"

text \<open>The same heap with eight bytes left: the next allocation does not fit.\<close>

definition ex_full :: mutator where
  "ex_full = ex_mut\<lparr>semi := ex_space\<lparr>hp := 0x17FF8\<rparr>\<rparr>"


text \<open>The same heap again, over memory that holds old data: every byte is 0xFF.\<close>

definition ex_dirty :: mutator where
  "ex_dirty = ex_mut\<lparr>mem := (\<lambda>x. 0xFF)\<rparr>"
section \<open>Word arithmetic\<close>

lemma unat64_lt: "unat (x::64 word) < 18446744073709551616"
  using unsigned_less[of x, where 'a=nat] by simp

lemma unat64_sub:
  "unat ((x::64 word) - a) =
     (if unat a \<le> unat x then unat x - unat a else unat x + 18446744073709551616 - unat a)"
  using unat_sub_if'[of x a] by simp

lemma unat64_add:
  "unat ((x::64 word) + a) =
     (if unat x + unat a < 18446744073709551616 then unat x + unat a
      else unat x + unat a - 18446744073709551616)"
  using unat_plus_if'[of x a] by simp

lemma in_range_nat:
  "unat a + unat n \<le> 2 ^ 64 \<Longrightarrow>
     (x::64 word) - a < n \<longleftrightarrow> unat a \<le> unat x \<and> unat x < unat a + unat n"
  using unat64_lt[of x] unat64_lt[of a] unat64_lt[of n]
  by (auto simp add: word_less_nat_alt unat64_sub)

lemma and1_odd: "(n::64 word) AND 1 \<noteq> 0 \<longleftrightarrow> odd (unat n)"
  by (simp add: and_one_eq word_unat_eq_iff unat_mod flip: even_iff_mod_2_eq_zero)

lemma unat_drop1: "unat (drop_bit 1 (x::64 word)) = unat x div 2"
  by (simp add: unat_drop_bit_eq drop_bit_eq_div unat_div)




lemma half_size_nat:
  assumes "round_up_even (unat n) * unat (page_size E) < 2 ^ 64"
  shows "unat (half_size_of E n) = round_up_even (unat n) div 2 * unat (page_size E)"
proof (cases "page_size E = 0")
  case True
  then show ?thesis by (simp add: half_size_of_def unat_drop1)
next
  case False
  then have p: "0 < unat (page_size E)" by (simp add: unat_gt_0)
  define ne where "ne = (if n AND 1 \<noteq> 0 then n + 1 else n)"
  have "round_up_even (unat n) < 2 ^ 64"
    using assms p
    by (metis (no_types, lifting) less_le_trans mult.right_neutral mult_le_mono2 Suc_leI
        One_nat_def not_less)
  then have ne: "unat ne = round_up_even (unat n)"
    by (auto simp add: ne_def round_up_even_def and1_odd unat64_add)
  then have "unat (ne * page_size E) = round_up_even (unat n) * unat (page_size E)"
    using assms unat_mult_lem[of ne "page_size E"] by simp
  moreover have "even (round_up_even (unat n))" by (simp add: round_up_even_def)
  ultimately show ?thesis
    unfolding half_size_of_def ne_def[symmetric] unat_drop1 by (auto elim!: evenE)
qed

section \<open>Loads and stores\<close>

lemma load64_store64_same: "load64 (store64 a v m) a = v"
  apply (simp add: load64_def store64_def byte_at_def)
  apply (rule bit_eqI)
  apply (simp add: bit_simps)
  subgoal for n
  proof -
    assume n: "n < 64"
    consider "n < 8" | "8 \<le> n" "n < 16" | "16 \<le> n" "n < 24" | "24 \<le> n" "n < 32"
      | "32 \<le> n" "n < 40" | "40 \<le> n" "n < 48" | "48 \<le> n" "n < 56" | "56 \<le> n"
      by arith
    then show ?thesis
    proof cases
      case 1
      then show ?thesis by simp
    next
      case 2
      then have "n - 8 < 8" "\<not> 16 \<le> n" by arith+
      with 2 show ?thesis by simp
    next
      case 3
      then have "n - 16 < 8" "\<not> n - 8 < 8" "\<not> 24 \<le> n" by arith+
      with 3 show ?thesis by simp
    next
      case 4
      then have "n - 24 < 8" "\<not> n - 8 < 8" "\<not> n - 16 < 8" "\<not> 32 \<le> n" by arith+
      with 4 show ?thesis by simp
    next
      case 5
      then have "n - 32 < 8" "\<not> n - 8 < 8" "\<not> n - 16 < 8" "\<not> n - 24 < 8" "\<not> 40 \<le> n"
        by arith+
      with 5 show ?thesis by simp
    next
      case 6
      then have "n - 40 < 8" "\<not> n - 8 < 8" "\<not> n - 16 < 8" "\<not> n - 24 < 8"
        "\<not> n - 32 < 8" "\<not> 48 \<le> n"
        by arith+
      with 6 show ?thesis by simp
    next
      case 7
      then have "n - 48 < 8" "\<not> n - 8 < 8" "\<not> n - 16 < 8" "\<not> n - 24 < 8"
        "\<not> n - 32 < 8" "\<not> n - 40 < 8" "\<not> 56 \<le> n"
        by arith+
      with 7 show ?thesis by simp
    next
      case 8
      with n have "n - 56 < 8" "\<not> n - 8 < 8" "\<not> n - 16 < 8" "\<not> n - 24 < 8"
        "\<not> n - 32 < 8" "\<not> n - 40 < 8" "\<not> n - 48 < 8"
        by arith+
      with 8 show ?thesis by simp
    qed
  qed
  done

lemma load64_cong:
  "(\<And>i. i < 8 \<Longrightarrow> m (a + i) = m' (a' + i)) \<Longrightarrow> load64 m a = load64 m' a'"
proof -
  assume h: "\<And>i. i < 8 \<Longrightarrow> m (a + i) = m' (a' + i)"
  have "m (a + 0) = m' (a' + 0)" "m (a + 1) = m' (a' + 1)" "m (a + 2) = m' (a' + 2)"
    "m (a + 3) = m' (a' + 3)" "m (a + 4) = m' (a' + 4)" "m (a + 5) = m' (a' + 5)"
    "m (a + 6) = m' (a' + 6)" "m (a + 7) = m' (a' + 7)"
    by (rule h, simp)+
  then show ?thesis by (simp add: load64_def)
qed

lemma sub8_less_iff:
  assumes "8 \<le> (sz::64 word)"
  shows "y - 8 < sz - 8 \<longleftrightarrow> 8 \<le> y \<and> y < sz"
  using assms unat64_lt[of y] unat64_lt[of sz]
  by (auto simp: word_less_nat_alt word_le_nat_alt unat64_sub)

lemma sub8_less_small:
  assumes "(sz::64 word) < 8"
  shows "y - 8 < sz - 8 \<longleftrightarrow> y < sz \<or> 8 \<le> y"
  using assms unat64_lt[of y] unat64_lt[of sz]
  by (auto simp: word_less_nat_alt word_le_nat_alt unat64_sub)

lemma clear_length_small:
  "8 \<le> sz \<Longrightarrow> sz < LARGE_OBJECT_THRESHOLD \<Longrightarrow> unat (clear_length sz) = unat sz - 8"
  by (simp add: clear_length_def unat64_sub word_le_nat_alt)

lemma clear_length_wraps:
  "sz < 8 \<Longrightarrow> unat (clear_length sz) = unat sz + 2 ^ 64 - 8"
  by (simp add: clear_length_def unat64_sub word_less_nat_alt)

lemma clear_after_header:
  assumes "8 \<le> sz" and "sz < LARGE_OBJECT_THRESHOLD"
  shows "clear_memory (a + 8) (clear_length sz) m =
           Some (\<lambda>x. if 8 \<le> x - a \<and> x - a < sz then 0 else m x)"
proof -
  have "unat sz < 8192"
    using assms(2) by (simp add: LARGE_OBJECT_THRESHOLD_def word_less_nat_alt)
  then have "\<not> (2::nat) ^ 63 \<le> unat (clear_length sz)"
    using clear_length_small[OF assms] by simp
  moreover have "(x - (a + 8) < clear_length sz) = (8 \<le> x - a \<and> x - a < sz)" for x
    using sub8_less_iff[OF assms(1), of "x - a"]
    by (simp add: clear_length_def diff_diff_eq add.commute)
  ultimately show ?thesis
    by (simp add: clear_memory_def)
qed

lemma clear_small:
  assumes "sz < 8"
  shows "clear_memory a (clear_length sz) m = None"
proof -
  have "unat sz < 8"
    using assms by (simp add: word_less_nat_alt)
  then have "(2::nat) ^ 63 \<le> unat (clear_length sz)"
    using clear_length_wraps[OF assms] by simp
  then show ?thesis
    by (simp add: clear_memory_def)
qed

section \<open>What a collection leaves alone, and how it can fail\<close>

lemma same_frame_refl: "same_frame s s"
  by (simp add: same_frame_def)

lemma same_frame_trans: "same_frame s t \<Longrightarrow> same_frame t u \<Longrightarrow> same_frame s u"
  by (simp add: same_frame_def)

lemma copy_frame: "copy E s k obj = Returns (s', a) \<Longrightarrow> same_frame s s'"
  by (auto simp: copy_def same_frame_def Let_def split: if_splits)

lemma forward_frame: "forward E s obj = Returns (s', a) \<Longrightarrow> same_frame s s'"
  by (auto simp: forward_def Let_def same_frame_refl split: if_splits dest: copy_frame)

lemma visit_semi_space_frame: "visit_semi_space E s loc obj = Returns s' \<Longrightarrow> same_frame s s'"
  by (auto simp: visit_semi_space_def split: outcome.splits dest!: forward_frame)
     (simp add: same_frame_def)

lemma visit_frame:
  assumes sc: "\<And>t g t' g'. sc t g = Returns (t', g') \<Longrightarrow> same_frame t t'"
  shows "visit E sc s loc = Returns s' \<Longrightarrow> same_frame s s'"
  apply (simp add: visit_def Let_def split: if_splits)
    apply (simp add: same_frame_refl)
   apply (erule visit_semi_space_frame)
  apply (auto simp: visit_large_object_space_def large_object_space_copy_def
      split: if_splits outcome.splits dest!: sc)
   apply (simp_all add: same_frame_def)
  done

lemma visit_each_frame:
  assumes v: "\<And>t loc t'. v t loc = Returns t' \<Longrightarrow> same_frame t t'"
  shows "visit_each v s locs = Returns s' \<Longrightarrow> same_frame s s'"
proof (induction locs arbitrary: s)
  case Nil
  then show ?case by (simp add: same_frame_refl)
next
  case (Cons loc locs)
  then show ?case
    by (auto split: outcome.splits dest!: v intro: same_frame_trans)
qed

lemma scan_frame: "scan d E s g = Returns (s', g') \<Longrightarrow> same_frame s s'"
proof (induction d arbitrary: s g s' g')
  case 0
  then show ?case by simp
next
  case (Suc d)
  have v: "\<And>t loc t'. visit E (scan d E) t loc = Returns t' \<Longrightarrow> same_frame t t'"
    by (rule visit_frame[where sc = "scan d E"]) (rule Suc.IH)
  from Suc.prems show ?case
    by (auto simp: Let_def split: if_splits outcome.splits intro: visit_each_frame[OF v])
qed

lemma scan_loop_frame: "scan_loop n d E s g = Returns s' \<Longrightarrow> same_frame s s'"
proof (induction n arbitrary: s g)
  case 0
  then show ?case by (simp add: same_frame_refl split: if_splits)
next
  case (Suc n)
  then show ?case
    by (auto simp: same_frame_refl split: if_splits outcome.splits dest!: scan_frame
        intro: same_frame_trans)
qed

lemma collect_count: "collect n d E s = Returns s' \<Longrightarrow> count (semi s') = count (semi s) + 1"
  apply (simp add: collect_def Let_def split: outcome.splits)
  apply (drule visit_each_frame[rotated])
   apply (erule visit_frame[rotated])
   apply (erule scan_frame)
  apply (drule scan_loop_frame)
  apply (auto simp: same_frame_def steal_pages_def semi_space_steal_pages_def Let_def flip_def
      split: if_splits prod.splits)
  done

lemma copy_fatal: "copy E s k obj = Fatal f \<Longrightarrow> f = Aborted"
  by (simp add: copy_def Let_def split: if_splits)

lemma forward_fatal: "forward E s obj = Fatal f \<Longrightarrow> f = Aborted"
  by (auto simp: forward_def Let_def split: if_splits dest: copy_fatal)

lemma visit_semi_space_fatal: "visit_semi_space E s loc obj = Fatal f \<Longrightarrow> f = Aborted"
  by (auto simp: visit_semi_space_def split: outcome.splits dest: forward_fatal)

lemma visit_fatal:
  assumes sc: "\<And>t g f. sc t g = Fatal f \<Longrightarrow> f = Aborted"
  shows "visit E sc s loc = Fatal f \<Longrightarrow> f = Aborted"
  by (auto simp: visit_def Let_def visit_large_object_space_def
      split: outcome.splits prod.splits bool.splits if_splits
      dest: sc visit_semi_space_fatal)

lemma visit_each_fatal:
  assumes v: "\<And>t loc f. v t loc = Fatal f \<Longrightarrow> f = Aborted"
  shows "visit_each v s locs = Fatal f \<Longrightarrow> f = Aborted"
proof (induction locs arbitrary: s)
  case Nil
  then show ?case by simp
next
  case (Cons loc locs)
  then show ?case
    by (auto split: outcome.splits dest: v)
qed

lemma scan_fatal: "scan d E s g = Fatal f \<Longrightarrow> f = Aborted"
proof (induction d arbitrary: s g f)
  case 0
  then show ?case by simp
next
  case (Suc d)
  have "visit_each (visit E (scan d E)) t locs = Fatal f' \<Longrightarrow> f' = Aborted" for locs t f'
    by (erule visit_each_fatal[rotated]) (erule visit_fatal[rotated], erule Suc.IH)
  with Suc.prems show ?case
    by (auto simp: Let_def split: outcome.splits if_splits)
qed

lemma scan_loop_fatal: "scan_loop n d E s g = Fatal f \<Longrightarrow> f = Aborted"
proof (induction n arbitrary: s g)
  case 0
  then show ?case by (simp split: if_splits)
next
  case (Suc n)
  then show ?case
    by (auto split: outcome.splits if_splits dest: scan_fatal)
qed

lemma collect_fatal: "collect n d E s = Fatal f \<Longrightarrow> f = Aborted"
proof -
  have "visit_each (visit E (scan d E)) t locs = Fatal f' \<Longrightarrow> f' = Aborted" for locs t f'
    by (erule visit_each_fatal[rotated]) (erule visit_fatal[rotated], erule scan_fatal)
  then show "collect n d E s = Fatal f \<Longrightarrow> f = Aborted"
    by (auto simp: collect_def Let_def split: outcome.splits dest: scan_loop_fatal)
qed

section \<open>The small path of allocation, round by round\<close>

lemma header_after_clear:
  assumes "8 \<le> sz"
  shows "load64 (\<lambda>x. if 8 \<le> x - a \<and> x - a < sz then 0 else store64 a kind m x) a = kind"
proof -
  have "load64 (\<lambda>x. if 8 \<le> x - a \<and> x - a < sz then 0 else store64 a kind m x) a =
        load64 (store64 a kind m) a"
    by (rule load64_cong) auto
  then show ?thesis by (simp add: load64_store64_same)
qed

lemma allocate_small_fits:
  assumes "8 \<le> sz" and "sz < LARGE_OBJECT_THRESHOLD"
    and "\<not> limit (semi s) < align_up (hp (semi s) + sz) ALIGNMENT"
  shows "allocate_small (Suc r) n d E s kind sz =
           Returns
             (s\<lparr>semi := (semi s)\<lparr>hp := align_up (hp (semi s) + sz) ALIGNMENT\<rparr>,
                mem := (\<lambda>x. if 8 \<le> x - hp (semi s) \<and> x - hp (semi s) < sz then 0
                             else store64 (hp (semi s)) kind (mem s) x)\<rparr>,
              hp (semi s))"
  using assms(3) by (simp add: Let_def clear_after_header[OF assms(1,2)])

lemma allocate_small_round:
  assumes "limit (semi s) < align_up (hp (semi s) + sz) ALIGNMENT"
  shows "allocate_small (Suc r) n d E s kind sz =
           (case collect_for_alloc n d E s sz of
              Returns s' \<Rightarrow> allocate_small r n d E s' kind sz
            | Fatal f \<Rightarrow> Fatal f
            | Out_of_fuel \<Rightarrow> Out_of_fuel)"
  using assms by (simp add: Let_def)

lemma allocate_small_returns:
  assumes "8 \<le> sz" and "sz < LARGE_OBJECT_THRESHOLD"
  shows "allocate_small r n d E s kind sz = Returns (s', p) \<Longrightarrow>
           hp (semi s') = align_up (p + sz) ALIGNMENT \<and> load64 (mem s') p = kind \<and>
           (\<forall>x. 8 \<le> x - p \<and> x - p < sz \<longrightarrow> mem s' x = 0)"
proof (induction r arbitrary: s)
  case 0
  then show ?case by simp
next
  case (Suc r)
  show ?case
  proof (cases "limit (semi s) < align_up (hp (semi s) + sz) ALIGNMENT")
    case True
    with Suc.prems obtain s1 where "collect_for_alloc n d E s sz = Returns s1"
      "allocate_small r n d E s1 kind sz = Returns (s', p)"
      by (simp add: allocate_small_round split: outcome.splits)
    then show ?thesis using Suc.IH by blast
  next
    case False
    from Suc.prems allocate_small_fits[OF assms False, of r n d E kind]
    have "p = hp (semi s)"
      "s' = s\<lparr>semi := (semi s)\<lparr>hp := align_up (hp (semi s) + sz) ALIGNMENT\<rparr>,
                mem := (\<lambda>x. if 8 \<le> x - hp (semi s) \<and> x - hp (semi s) < sz then 0
                             else store64 (hp (semi s)) kind (mem s) x)\<rparr>"
      by simp_all
    then show ?thesis
      by (simp add: header_after_clear[OF assms(1)])
  qed
qed

lemma returned_simps:
  "returned (Returns x) = Some x" "returned (Fatal f) = None" "returned Out_of_fuel = None"
  by (simp_all add: returned_def)

lemma allocate_below:
  "sz < LARGE_OBJECT_THRESHOLD \<Longrightarrow>
     allocate r n d E s kind sz = allocate_small r n d E s kind sz"
  by (auto simp add: allocate_def)

lemma allocate_small_tiny:
  assumes "sz < 8"
  shows "returned (allocate_small r n d E s kind sz) = None"
proof (induction r arbitrary: s)
  case 0
  then show ?case by (simp add: returned_simps)
next
  case (Suc r)
  show ?case
  proof (cases "limit (semi s) < align_up (hp (semi s) + sz) ALIGNMENT")
    case True
    then show ?thesis
      by (cases "collect_for_alloc n d E s sz")
        (simp_all add: allocate_small_round[OF True] returned_simps Suc.IH)
  next
    case False
    then show ?thesis
      by (simp add: Let_def clear_small[OF assms] returned_simps)
  qed
qed


section \<open>The budget transfer\<close>

text \<open>
  Claim C4, as amended. The claim says that a successful steal of \<open>n\<close> pages lowers the
  free capacity \<open>limit - hp\<close> by \<open>n * page_size\<close>. The code lowers \<open>limit\<close> by
  \<open>half_size\<close>, half of that: each of the two halves of the semi-space gives up half of
  the budget. Proved here: after a successful steal the free capacity has gone down by
  exactly \<open>half_size\<close>, which is half of the even-rounded page count times the page size
  when that product does not overflow.
\<close>

theorem steal_pages_free_capacity:
  assumes "semi_space_steal_pages E space n = (True, space', rs)"
  shows "unat (limit space' - hp space') + unat (half_size_of E n) = unat (limit space - hp space) \<and>
         (round_up_even (unat n) * unat (page_size E) < 2 ^ 64 \<longrightarrow>
            2 * unat (half_size_of E n) = round_up_even (unat n) * unat (page_size E))"
proof -
  have "unat (limit space' - hp space') + unat (half_size_of E n) = unat (limit space - hp space)"
    using assms unat64_lt[of "limit space - hp space"]
    apply (simp add: semi_space_steal_pages_def Let_def split: if_splits)
    apply (auto simp add: word_less_nat_alt unat64_sub not_less word_le_nat_alt)
    done
  moreover have "even (round_up_even (unat n))"
    by (simp add: round_up_even_def)
  ultimately show ?thesis
    by (auto simp: half_size_nat elim!: evenE)
qed

theorem steal_pages_free_capacity_witness:
  "semi_space_steal_pages ex_E ex_space 3 =
     (True, ex_space\<lparr>limit := 0x16000\<rparr>, [(0x16000, 0x2000), (0x12000, 0x2000)]) \<and>
   unat (limit (ex_space\<lparr>limit := 0x16000\<rparr>) - hp (ex_space\<lparr>limit := 0x16000\<rparr>)) + 8192 =
     unat (limit ex_space - hp ex_space) \<and>
   2 * unat (half_size_of ex_E 3) = 4 * 4096"
proof -
  have st: "semi_space_steal_pages ex_E ex_space 3 =
     (True, ex_space\<lparr>limit := 0x16000\<rparr>, [(0x16000, 0x2000), (0x12000, 0x2000)])"
    by (simp add: semi_space_steal_pages_def half_size_of_def ex_E_def ex_space_def Let_def)
  have h: "unat (half_size_of ex_E 3) = 8192"
    by (simp add: half_size_of_def ex_E_def)
  show ?thesis
    using steal_pages_free_capacity[OF st] st h
    by (simp add: round_up_even_def ex_E_def)
qed

theorem steal_pages_free_capacity_counterexample:
  "fst (semi_space_steal_pages ex_E ex_space 2) \<and>
   unat (limit ex_space - hp ex_space) = 16384 \<and>
   unat (limit (fst (snd (semi_space_steal_pages ex_E ex_space 2)))
         - hp (fst (snd (semi_space_steal_pages ex_E ex_space 2)))) = 12288 \<and>
   2 * unat (page_size ex_E) = 8192"
  by (simp add: semi_space_steal_pages_def half_size_of_def ex_E_def ex_space_def Let_def)

text \<open>
  Claim C5. \<^verbatim>\<open>semi_space_steal_pages\<close> fails exactly when the free capacity
  \<open>limit - hp\<close> is below \<open>half_size\<close>, and then leaves the space as it was; on success
  it lowers \<open>limit\<close> by \<open>half_size\<close> and changes nothing else. \<open>half_size\<close> is the page
  count rounded up to even, halved, times the page size, as long as the product of the
  rounded count and the page size fits a machine word.
\<close>

theorem steal_pages_primitive:
  "fst (semi_space_steal_pages E space n) = (\<not> limit space - hp space < half_size_of E n) \<and>
   fst (snd (semi_space_steal_pages E space n)) =
     (if limit space - hp space < half_size_of E n then space
      else space\<lparr>limit := limit space - half_size_of E n\<rparr>) \<and>
   (round_up_even (unat n) * unat (page_size E) < 2 ^ 64 \<longrightarrow>
      unat (half_size_of E n) = round_up_even (unat n) div 2 * unat (page_size E))"
  by (simp add: semi_space_steal_pages_def Let_def half_size_nat)

theorem steal_pages_primitive_witness:
  "fst (semi_space_steal_pages ex_E ex_space 3) \<and>
   fst (snd (semi_space_steal_pages ex_E ex_space 3)) = ex_space\<lparr>limit := 0x16000\<rparr> \<and>
   \<not> fst (semi_space_steal_pages ex_E ex_space 9) \<and>
   fst (snd (semi_space_steal_pages ex_E ex_space 9)) = ex_space \<and>
   unat (half_size_of ex_E 3) = 2 * 4096"
  using steal_pages_primitive[of ex_E ex_space 3] steal_pages_primitive[of ex_E ex_space 9]
  by (simp add: half_size_of_def ex_E_def ex_space_def round_up_even_def)

section \<open>Allocation\<close>




text \<open>
  Claim C9. The length handed to the zeroing step on the small path is \<open>size - 8\<close> in
  unsigned 64-bit arithmetic. For a size below 8 it wraps around to \<open>size + 2^64 - 8\<close>,
  a run of bytes that no mapping holds: the zeroing faults, a call whose block fits ends
  in the memory fault, and no call returns, however many collections it goes through.
  For a size of at least 8 (and below the large-object threshold) the length is
  \<open>size - 8\<close>; a call whose block fits returns it with the header word stored, offsets
  8 to \<open>size - 1\<close> zero and every other byte as before, and every call that returns
  leaves the header word \<open>kind\<close> and zero at offsets 8 to \<open>size - 1\<close>.
\<close>

theorem zeroing_length_underflow:
  "(sz < 8 \<longrightarrow>
      unat (clear_length sz) = unat sz + 2 ^ 64 - 8 \<and>
      clear_memory (hp (semi s) + 8) (clear_length sz) (store64 (hp (semi s)) kind (mem s)) = None \<and>
      (\<not> limit (semi s) < align_up (hp (semi s) + sz) ALIGNMENT \<longrightarrow>
         allocate (Suc r) n d E s kind sz = Fatal Memory_fault) \<and>
      returned (allocate r n d E s kind sz) = None) \<and>
   (8 \<le> sz \<and> sz < LARGE_OBJECT_THRESHOLD \<longrightarrow>
      unat (clear_length sz) = unat sz - 8 \<and>
      (\<not> limit (semi s) < align_up (hp (semi s) + sz) ALIGNMENT \<longrightarrow>
         (\<exists>s'. allocate (Suc r) n d E s kind sz = Returns (s', hp (semi s)) \<and>
            (\<forall>x. mem s' x =
               (if x - hp (semi s) < 8 then byte_at kind (unat (x - hp (semi s)))
                else if x - hp (semi s) < sz then 0 else mem s x)))) \<and>
      (\<forall>s' p. allocate r n d E s kind sz = Returns (s', p) \<longrightarrow>
         load64 (mem s') p = kind \<and>
         (\<forall>x. 8 \<le> x - p \<and> x - p < sz \<longrightarrow> mem s' x = 0)))"
proof -
  have 1: "sz < 8 \<longrightarrow>
      unat (clear_length sz) = unat sz + 2 ^ 64 - 8 \<and>
      clear_memory (hp (semi s) + 8) (clear_length sz) (store64 (hp (semi s)) kind (mem s)) = None \<and>
      (\<not> limit (semi s) < align_up (hp (semi s) + sz) ALIGNMENT \<longrightarrow>
         allocate (Suc r) n d E s kind sz = Fatal Memory_fault) \<and>
      returned (allocate r n d E s kind sz) = None"
  proof
    assume lt: "sz < 8"
    have "sz < LARGE_OBJECT_THRESHOLD"
      using lt by (simp add: LARGE_OBJECT_THRESHOLD_def word_less_nat_alt)
    then have a: "allocate r' n d E s kind sz = allocate_small r' n d E s kind sz" for r'
      by (rule allocate_below)
    show "unat (clear_length sz) = unat sz + 2 ^ 64 - 8 \<and>
      clear_memory (hp (semi s) + 8) (clear_length sz) (store64 (hp (semi s)) kind (mem s)) = None \<and>
      (\<not> limit (semi s) < align_up (hp (semi s) + sz) ALIGNMENT \<longrightarrow>
         allocate (Suc r) n d E s kind sz = Fatal Memory_fault) \<and>
      returned (allocate r n d E s kind sz) = None"
      using clear_length_wraps[OF lt] allocate_small_tiny[OF lt, of r n d E s kind]
      by (simp add: a clear_small[OF lt] Let_def)
  qed
  have 2: "8 \<le> sz \<and> sz < LARGE_OBJECT_THRESHOLD \<longrightarrow>
      unat (clear_length sz) = unat sz - 8 \<and>
      (\<not> limit (semi s) < align_up (hp (semi s) + sz) ALIGNMENT \<longrightarrow>
         (\<exists>s'. allocate (Suc r) n d E s kind sz = Returns (s', hp (semi s)) \<and>
            (\<forall>x. mem s' x =
               (if x - hp (semi s) < 8 then byte_at kind (unat (x - hp (semi s)))
                else if x - hp (semi s) < sz then 0 else mem s x)))) \<and>
      (\<forall>s' p. allocate r n d E s kind sz = Returns (s', p) \<longrightarrow>
         load64 (mem s') p = kind \<and>
         (\<forall>x. 8 \<le> x - p \<and> x - p < sz \<longrightarrow> mem s' x = 0))"
  proof
    assume h: "8 \<le> sz \<and> sz < LARGE_OBJECT_THRESHOLD"
    then have ge: "8 \<le> sz" and lt: "sz < LARGE_OBJECT_THRESHOLD" by simp_all
    have a: "allocate r' n d E s kind sz = allocate_small r' n d E s kind sz" for r'
      using lt by (rule allocate_below)
    have fits: "\<not> limit (semi s) < align_up (hp (semi s) + sz) ALIGNMENT \<longrightarrow>
         (\<exists>s'. allocate (Suc r) n d E s kind sz = Returns (s', hp (semi s)) \<and>
            (\<forall>x. mem s' x =
               (if x - hp (semi s) < 8 then byte_at kind (unat (x - hp (semi s)))
                else if x - hp (semi s) < sz then 0 else mem s x)))"
      using allocate_small_fits[OF ge lt, of s r n d E kind]
      by (auto simp add: a store64_def not_le not_less)
    have rets: "\<forall>s' p. allocate r n d E s kind sz = Returns (s', p) \<longrightarrow>
         load64 (mem s') p = kind \<and>
         (\<forall>x. 8 \<le> x - p \<and> x - p < sz \<longrightarrow> mem s' x = 0)"
      using allocate_small_returns[OF ge lt, of r n d E s kind]
      by (simp add: a)
    show "unat (clear_length sz) = unat sz - 8 \<and>
      (\<not> limit (semi s) < align_up (hp (semi s) + sz) ALIGNMENT \<longrightarrow>
         (\<exists>s'. allocate (Suc r) n d E s kind sz = Returns (s', hp (semi s)) \<and>
            (\<forall>x. mem s' x =
               (if x - hp (semi s) < 8 then byte_at kind (unat (x - hp (semi s)))
                else if x - hp (semi s) < sz then 0 else mem s x)))) \<and>
      (\<forall>s' p. allocate r n d E s kind sz = Returns (s', p) \<longrightarrow>
         load64 (mem s') p = kind \<and>
         (\<forall>x. 8 \<le> x - p \<and> x - p < sz \<longrightarrow> mem s' x = 0))"
      using clear_length_small[OF ge lt] fits rets by blast
  qed
  from 1 2 show ?thesis by blast
qed

text \<open>
  Both cases on the small heap: a size of 4, and a size of 16 over memory full of old
  data.
\<close>

theorem zeroing_length_underflow_witness:
  "(4::64 word) < 8 \<and>
   \<not> limit (semi ex_mut) < align_up (hp (semi ex_mut) + 4) ALIGNMENT \<and>
   unat (clear_length 4) = 18446744073709551612 \<and>
   allocate (Suc 0) 0 0 ex_E ex_mut 1 4 = Fatal Memory_fault \<and>
   (8::64 word) \<le> 16 \<and> (16::64 word) < LARGE_OBJECT_THRESHOLD \<and>
   \<not> limit (semi ex_dirty) < align_up (hp (semi ex_dirty) + 16) ALIGNMENT \<and>
   unat (clear_length 16) = 8 \<and>
   map_option snd (returned (allocate (Suc 0) 0 0 ex_E ex_dirty 1 16)) = Some 0x14000 \<and>
   map_option (\<lambda>r. mem (fst r) 0x14000) (returned (allocate (Suc 0) 0 0 ex_E ex_dirty 1 16)) =
     Some 1 \<and>
   map_option (\<lambda>r. mem (fst r) 0x14007) (returned (allocate (Suc 0) 0 0 ex_E ex_dirty 1 16)) =
     Some 0 \<and>
   map_option (\<lambda>r. mem (fst r) 0x14008) (returned (allocate (Suc 0) 0 0 ex_E ex_dirty 1 16)) =
     Some 0 \<and>
   map_option (\<lambda>r. mem (fst r) 0x1400F) (returned (allocate (Suc 0) 0 0 ex_E ex_dirty 1 16)) =
     Some 0 \<and>
   map_option (\<lambda>r. mem (fst r) 0x14010) (returned (allocate (Suc 0) 0 0 ex_E ex_dirty 1 16)) =
     Some 0xFF"
proof -
  have a: "(4::64 word) < 8" by simp
  have b: "\<not> limit (semi ex_mut) < align_up (hp (semi ex_mut) + 4) ALIGNMENT"
    by (simp add: ex_mut_def ex_space_def align_up_def ALIGNMENT_def)
  have c: "(8::64 word) \<le> 16" "(16::64 word) < LARGE_OBJECT_THRESHOLD"
    by (simp_all add: LARGE_OBJECT_THRESHOLD_def)
  have e: "\<not> limit (semi ex_dirty) < align_up (hp (semi ex_dirty) + 16) ALIGNMENT"
    by (simp add: ex_dirty_def ex_mut_def ex_space_def align_up_def ALIGNMENT_def)
  have h: "hp (semi ex_dirty) = 0x14000" "mem ex_dirty = (\<lambda>x. 0xFF)"
    by (simp_all add: ex_dirty_def ex_mut_def ex_space_def)
  from zeroing_length_underflow[where sz = 4 and s = ex_mut and r = 0 and n = 0 and d = 0
      and E = ex_E and kind = 1] a b
  have 1: "unat (clear_length (4::64 word)) = unat (4::64 word) + 2 ^ 64 - 8"
    "allocate (Suc 0) 0 0 ex_E ex_mut 1 4 = Fatal Memory_fault"
    by blast+
  from zeroing_length_underflow[where sz = 16 and s = ex_dirty and r = 0 and n = 0 and d = 0
      and E = ex_E and kind = 1] c e
  obtain s' where 2: "unat (clear_length (16::64 word)) = unat (16::64 word) - 8"
    "allocate (Suc 0) 0 0 ex_E ex_dirty 1 16 = Returns (s', hp (semi ex_dirty))"
    "\<forall>x. mem s' x =
       (if x - hp (semi ex_dirty) < 8 then byte_at 1 (unat (x - hp (semi ex_dirty)))
        else if x - hp (semi ex_dirty) < 16 then 0 else mem ex_dirty x)"
    by blast
  have bytes: "mem s' 0x14000 = 1" "mem s' 0x14007 = 0" "mem s' 0x14008 = 0"
    "mem s' 0x1400F = 0" "mem s' 0x14010 = 0xFF"
    using 2(3) by (simp_all add: h byte_at_def)
  show ?thesis using a b c e 1 2(1,2) bytes by (simp add: returned_def h)
qed

text \<open>
  Claim C6. \<^verbatim>\<open>collect_for_alloc\<close> runs a full collection first; it ends in the
  heap-exhaustion abort if and only if that collection returned and left less free
  capacity \<open>limit - hp\<close> than the bytes asked for, and it returns the collected state if
  and only if the collection returned and left enough. The small path of \<^verbatim>\<open>allocate\<close>
  handles a block that does not fit by this call and nothing else.
\<close>

theorem collect_for_alloc_fatal:
  "(collect_for_alloc n d E s bytes = Fatal Ran_out_of_space \<longleftrightarrow>
     (\<exists>s'. collect n d E s = Returns s' \<and> limit (semi s') - hp (semi s') < bytes)) \<and>
   (collect_for_alloc n d E s bytes = Returns s1 \<longleftrightarrow>
     collect n d E s = Returns s1 \<and> \<not> limit (semi s1) - hp (semi s1) < bytes) \<and>
   (sz < LARGE_OBJECT_THRESHOLD \<and> limit (semi s) < align_up (hp (semi s) + sz) ALIGNMENT \<longrightarrow>
     allocate (Suc r) n d E s kind sz =
       (case collect_for_alloc n d E s sz of
          Returns s' \<Rightarrow> allocate r n d E s' kind sz
        | Fatal f \<Rightarrow> Fatal f
        | Out_of_fuel \<Rightarrow> Out_of_fuel))"
  by (auto simp: collect_for_alloc_def allocate_def Let_def
      split: outcome.splits if_splits dest: collect_fatal)

theorem collect_for_alloc_fatal_witness:
  "(16::64 word) < LARGE_OBJECT_THRESHOLD \<and>
   limit (semi ex_full) < align_up (hp (semi ex_full) + 16) ALIGNMENT \<and>
   map_option (\<lambda>t. (hp (semi t), limit (semi t))) (returned (collect 0 0 ex_E ex_full)) =
     Some (0x10000, 0x14000) \<and>
   collect_for_alloc 0 0 ex_E ex_full 0x4001 = Fatal Ran_out_of_space \<and>
   map_option snd (returned (allocate (Suc (Suc 0)) 0 0 ex_E ex_full 1 16)) = Some 0x10000"
proof -
  have a: "(16::64 word) < LARGE_OBJECT_THRESHOLD"
    by (simp add: LARGE_OBJECT_THRESHOLD_def)
  have b: "limit (semi ex_full) < align_up (hp (semi ex_full) + 16) ALIGNMENT"
    by (simp add: ex_full_def ex_space_def align_up_def ALIGNMENT_def)
  define t where "t = ex_full\<lparr>los := ex_los, semi := ex_space\<lparr>hp := 0x10000, limit := 0x14000, count := 1\<rparr>,
     mem := madvise_dontneed 0x10000 0 (madvise_dontneed 0x14000 0 (mem ex_full))\<rparr>"
  have c: "collect 0 0 ex_E ex_full = Returns t"
    by (simp add: collect_def ex_full_def ex_mut_def ex_space_def ex_los_def ex_E_def flip_def Let_def
        large_object_space_start_gc_def large_object_space_finish_gc_def steal_pages_def
        semi_space_steal_pages_def half_size_of_def t_def)
  have t: "hp (semi t) = 0x10000" "limit (semi t) = 0x14000"
    by (simp_all add: t_def ex_space_def)
  have e: "\<not> limit (semi t) < align_up (hp (semi t) + 16) ALIGNMENT"
    by (simp add: t align_up_def ALIGNMENT_def)
  have f: "collect_for_alloc 0 0 ex_E ex_full 16 = Returns t"
    using collect_for_alloc_fatal[where n=0 and d=0 and E=ex_E and s=ex_full and bytes=16 and ?s1.0=t] c by (simp add: t)
  have g: "collect_for_alloc 0 0 ex_E ex_full 0x4001 = Fatal Ran_out_of_space"
    using collect_for_alloc_fatal[where n=0 and d=0 and E=ex_E and s=ex_full and bytes="0x4001"] c by (simp add: t)
  have "allocate (Suc (Suc 0)) 0 0 ex_E ex_full 1 16 = allocate (Suc 0) 0 0 ex_E t 1 16"
    using collect_for_alloc_fatal[where sz=16 and s=ex_full and r="Suc 0" and n=0 and d=0 and E=ex_E and kind=1] a b f by simp
  moreover have "map_option snd (returned (allocate (Suc 0) 0 0 ex_E t 1 16)) = Some 0x10000"
    using e by (simp add: allocate_def LARGE_OBJECT_THRESHOLD_def Let_def t returned_def
        clear_memory_def clear_length_def)
  ultimately show ?thesis
    using a b c g by (simp add: returned_def t)
qed

text \<open>
  Claim C7. \<^verbatim>\<open>allocate_large\<close> turns the size into a page count and tries to steal
  that budget from the semi-space. When the steal succeeds nothing is collected; when it
  fails a full collection runs and the steal is tried once more, and a second failure is
  the heap-exhaustion abort. With the budget reserved the pages come from the fast path,
  from the slow path if the fast one returned null, and if both return null the call ends
  in an abort of its own, different from the heap-exhaustion one.
\<close>

theorem allocate_large_protocol:
  "(fst (steal_pages E s (large_object_space_npages E (los s) sz)) \<longrightarrow>
      allocate_large n d E s kind sz =
        large_alloc_after_steal E
          (snd (steal_pages E s (large_object_space_npages E (los s) sz))) kind
          (large_object_space_npages E (los s) sz)) \<and>
   (\<not> fst (steal_pages E s (large_object_space_npages E (los s) sz)) \<longrightarrow>
      allocate_large n d E s kind sz =
        (case collect n d E s of
           Returns s2 \<Rightarrow>
             if fst (steal_pages E s2 (large_object_space_npages E (los s) sz))
             then large_alloc_after_steal E
                    (snd (steal_pages E s2 (large_object_space_npages E (los s) sz))) kind
                    (large_object_space_npages E (los s) sz)
             else Fatal Ran_out_of_space
         | Fatal f \<Rightarrow> Fatal f
         | Out_of_fuel \<Rightarrow> Out_of_fuel)) \<and>
   large_alloc_after_steal E t kind np =
     (let (l1, fast) = large_object_space_alloc E (los t) np in
      if fast \<noteq> 0 then Returns (t\<lparr>los := l1, mem := store64 fast kind (mem t)\<rparr>, fast)
      else let (l2, slow) = large_object_space_obtain_and_alloc E l1 np in
        if slow \<noteq> 0 then Returns (t\<lparr>los := l2, mem := store64 slow kind (mem t)\<rparr>, slow)
        else Fatal Weird_mmap) \<and>
   Fatal Weird_mmap \<noteq> (Fatal Ran_out_of_space :: (mutator \<times> addr) outcome)"
proof -
  define npages where "npages = large_object_space_npages E (los s) sz"
  have 1: "fst (steal_pages E s npages) \<longrightarrow>
      allocate_large n d E s kind sz =
        large_alloc_after_steal E (snd (steal_pages E s npages)) kind npages"
    by (auto simp: allocate_large_def npages_def Let_def
        split: prod.splits bool.splits outcome.splits)
  have 2: "\<not> fst (steal_pages E s npages) \<longrightarrow>
      allocate_large n d E s kind sz =
        (case collect n d E s of
           Returns s2 \<Rightarrow>
             if fst (steal_pages E s2 npages)
             then large_alloc_after_steal E (snd (steal_pages E s2 npages)) kind npages
             else Fatal Ran_out_of_space
         | Fatal f \<Rightarrow> Fatal f
         | Out_of_fuel \<Rightarrow> Out_of_fuel)"
    by (auto simp: allocate_large_def npages_def Let_def steal_pages_def
        semi_space_steal_pages_def split: prod.splits bool.splits outcome.splits if_splits)
  have 3: "large_alloc_after_steal E t kind np =
     (let (l1, fast) = large_object_space_alloc E (los t) np in
      if fast \<noteq> 0 then Returns (t\<lparr>los := l1, mem := store64 fast kind (mem t)\<rparr>, fast)
      else let (l2, slow) = large_object_space_obtain_and_alloc E l1 np in
        if slow \<noteq> 0 then Returns (t\<lparr>los := l2, mem := store64 slow kind (mem t)\<rparr>, slow)
        else Fatal Weird_mmap)"
    by (auto simp: large_alloc_after_steal_def Let_def split: prod.splits)
  from 1 2 3 show ?thesis
    unfolding npages_def by simp
qed

theorem allocate_large_protocol_witness:
  "fst (steal_pages ex_E ex_mut (large_object_space_npages ex_E (los ex_mut) 8192)) \<and>
   map_option snd (returned (allocate_large 0 0 ex_E ex_mut 1 8192)) = Some 0x7F0000000000 \<and>
   \<not> fst (steal_pages ex_E ex_full (large_object_space_npages ex_E (los ex_full) 8192)) \<and>
   map_option snd (returned (allocate_large 0 0 ex_E ex_full 1 8192)) = Some 0x7F0000000000 \<and>
   allocate_large 0 0 ex_E ex_full 1 0x10000 = Fatal Ran_out_of_space"
proof -
  have np: "large_object_space_npages ex_E l 8192 = 2" "large_object_space_npages ex_E l 0x10000 = 16" for l
    by (simp_all add: ex_E_def)
  have a: "fst (steal_pages ex_E ex_mut 2)"
    by (simp add: steal_pages_def semi_space_steal_pages_def half_size_of_def ex_E_def
        ex_mut_def ex_space_def Let_def)
  have b: "\<not> fst (steal_pages ex_E ex_full 2)" "\<not> fst (steal_pages ex_E ex_full 16)"
    by (simp_all add: steal_pages_def semi_space_steal_pages_def half_size_of_def ex_E_def
        ex_full_def ex_space_def Let_def)
  define t where "t = ex_full\<lparr>los := ex_los, semi := ex_space\<lparr>hp := 0x10000, limit := 0x14000, count := 1\<rparr>,
     mem := madvise_dontneed 0x10000 0 (madvise_dontneed 0x14000 0 (mem ex_full))\<rparr>"
  have c: "collect 0 0 ex_E ex_full = Returns t"
    by (simp add: collect_def ex_full_def ex_mut_def ex_space_def ex_los_def ex_E_def flip_def Let_def
        large_object_space_start_gc_def large_object_space_finish_gc_def steal_pages_def
        semi_space_steal_pages_def half_size_of_def t_def)
  have d: "fst (steal_pages ex_E t 2)" "\<not> fst (steal_pages ex_E t 16)"
    by (simp_all add: steal_pages_def semi_space_steal_pages_def half_size_of_def ex_E_def
        t_def ex_space_def Let_def)
  have e: "map_option snd (returned (large_alloc_after_steal ex_E u 1 2)) = Some 0x7F0000000000" for u
    by (simp add: large_alloc_after_steal_def ex_E_def returned_def)
  show ?thesis
    using allocate_large_protocol[where E=ex_E and s=ex_mut and sz=8192 and n=0 and d=0 and kind=1]
      allocate_large_protocol[where E=ex_E and s=ex_full and sz=8192 and n=0 and d=0 and kind=1]
      allocate_large_protocol[where E=ex_E and s=ex_full and sz="0x10000" and n=0 and d=0 and kind=1]
      a b c d e
    by (simp add: np)
qed

section \<open>Initialization\<close>

text \<open>
  Claim C10. After a successful \<^verbatim>\<open>initialize_gc\<close> on a mapping whose lower half does
  not wrap around the address space, the active tospace is the upper half of the mapping,
  \<open>hp = base + size/2\<close> and \<open>limit = base + size\<close>, and the counter is 0: it was set to
  -1 and the one flip of the initialization added 1. Every collection that returns adds 1
  to the counter, so the counter counts collections.
\<close>

theorem initial_state:
  assumes "initialize_gc mapped large m heap_size = Some s"
    and "unat (base (semi s)) + unat (size_sp (semi s)) div 2 < 2 ^ 64"
  shows "mapped = Some (base (semi s)) \<and> size_sp (semi s) = heap_size \<and>
         hp (semi s) = base (semi s) + drop_bit 1 (size_sp (semi s)) \<and>
         limit (semi s) = base (semi s) + size_sp (semi s) \<and>
         count (semi s) = 0 \<and> sint (count (semi s)) = 0 \<and> roots s = [] \<and>
         (\<forall>n d E s'. collect n d E s = Returns s' \<longrightarrow> count (semi s') = 1)"
proof -
  from assms(1) obtain b l where m: "mapped = Some b" and l: "large = Some l"
    by (auto simp: initialize_gc_def initialize_semi_space_def split: option.splits)
  have le: "b \<le> b + drop_bit (Suc 0) heap_size" if "unat b + unat heap_size div 2 < 2 ^ 64"
    using that unat_drop1[of heap_size] by (simp add: word_le_nat_alt unat64_add)
  from assms have "mapped = Some (base (semi s)) \<and> size_sp (semi s) = heap_size \<and>
         hp (semi s) = base (semi s) + drop_bit 1 (size_sp (semi s)) \<and>
         limit (semi s) = base (semi s) + size_sp (semi s) \<and>
         count (semi s) = 0 \<and> sint (count (semi s)) = 0 \<and> roots s = []"
    by (auto simp: m l initialize_gc_def initialize_semi_space_def flip_def Let_def le
        split: if_splits)
  then show ?thesis
    by (auto dest: collect_count)
qed

theorem initial_state_witness:
  "initialize_gc (Some 0x10000) (Some ex_los) (\<lambda>x. 0) 0x8000 = Some ex_mut \<and>
   unat (base (semi ex_mut)) + unat (size_sp (semi ex_mut)) div 2 < 2 ^ 64 \<and>
   hp (semi ex_mut) = 0x14000 \<and> limit (semi ex_mut) = 0x18000 \<and> count (semi ex_mut) = 0"
proof -
  have a: "initialize_gc (Some 0x10000) (Some ex_los) (\<lambda>x. 0) 0x8000 = Some ex_mut"
    by (simp add: initialize_gc_def initialize_semi_space_def flip_def ex_mut_def ex_space_def
        Let_def)
  have b: "unat (base (semi ex_mut)) + unat (size_sp (semi ex_mut)) div 2 < 2 ^ 64"
    by (simp add: ex_mut_def ex_space_def)
  show ?thesis
    using initial_state[OF a b] a b by (simp add: ex_mut_def ex_space_def)
qed

end
